theory Spec2Isabelle
  imports Main "HOL-Library.Word"
begin

section \<open>Data of the transcription app\<close>

text \<open>
  A Python float is modelled by its exact value: a finite float is a sign, a mantissa and a
  binary exponent (value \<open>\<plusminus> m * 2 ^ e\<close>); every finite double is of this form. The sign
  is kept apart from the mantissa because Python prints it for a negative zero too.
\<close>

datatype pyfloat = Finite bool nat int | Infinity bool | NaN

type_synonym bytes = "8 word list"

text \<open>
  One entry of \<open>transcription.segments\<close>: the script reads \<open>segment['start']\<close>,
  \<open>segment['end']\<close> and \<open>segment['text']\<close>; the other entries of the dictionary are
  the record's extension.
\<close>

record segment =
  seg_start :: pyfloat
  seg_end :: pyfloat
  seg_text :: string

text \<open>The response of the transcription service: \<open>transcription.text\<close> and \<open>transcription.segments\<close>.\<close>

record transcription =
  tr_text :: string
  tr_segments :: "segment list"

text \<open>The keyword arguments of \<open>client.audio.transcriptions.create\<close>.\<close>

record request =
  req_file_name :: string
  req_file_data :: bytes
  req_model :: string
  req_language :: string
  req_response_format :: string

text \<open>The uploaded file: \<open>uploaded_file.size\<close>, \<open>uploaded_file.type\<close>, \<open>uploaded_file.getvalue()\<close>.\<close>

record uploaded =
  up_size :: nat
  up_type :: string
  up_value :: bytes

text \<open>
  An exception: one raised by a call that leaves the script, or the one the framework raises
  when a widget is given a key that another widget of the same run has.
\<close>

datatype error = Exception string | Duplicate_widget_key string

text \<open>
  The calls that leave the script, each of which may raise: writing the temporary file
  (it returns the file's name), reading it back, the transcription request, and
  \<open>os.unlink\<close>.
\<close>

record env =
  env_save_temp :: "bytes \<Rightarrow> error + string"
  env_read :: "string \<Rightarrow> error + bytes"
  env_create :: "request \<Rightarrow> error + transcription"
  env_unlink :: "string \<Rightarrow> error + unit"

text \<open>
  The four keys of \<open>st.session_state\<close> that the script reads and writes; \<open>None\<close> is a
  key that is not in the session state.
\<close>

record session_state =
  ss_transcript :: "string option"
  ss_segments :: "segment list option"
  ss_edited_transcript :: "string option"
  ss_edited_segments :: "(string \<rightharpoonup> string) option"

text \<open>The messages \<open>st.error\<close> and \<open>st.success\<close> show.\<close>

datatype notice = Size_limit_error | Process_error error | Process_success

text \<open>One row of \<open>segments_data\<close>: the dictionary with the keys \<open>Time\<close> and \<open>Content\<close>.\<close>

record row =
  Time :: string
  Content :: string

text \<open>
  A text area the segment loop has created on the page: the time label beside it, the
  arguments \<open>label\<close>, \<open>value\<close> and \<open>key\<close> it was created with, and the text it holds.
\<close>

record cell =
  cell_time :: string
  cell_label :: string
  cell_value :: string
  cell_key :: string
  cell_text :: string

section \<open>Formatting\<close>

definition digit_char :: "nat \<Rightarrow> char" where
  "digit_char d = ''0123456789'' ! d"

fun digits :: "nat \<Rightarrow> string" where
  "digits n = (if n < 10 then [digit_char n] else digits (n div 10) @ [digit_char (n mod 10)])"

declare digits.simps [simp del]

text \<open>Rounding \<open>a / d\<close> to the nearest integer, a tie to the even one.\<close>

definition round_half_even :: "nat \<Rightarrow> nat \<Rightarrow> nat" where
  "round_half_even a d =
     (let q = a div d; r = a mod d
      in if 2 * r < d then q
         else if d < 2 * r then q + 1
         else if even q then q else q + 1)"

text \<open>
  The format \<open>:.2f\<close>: the exact value times 100, rounded half-even, printed with two
  digits after the point; the sign is printed whenever it is set.
\<close>

definition fmt2 :: "pyfloat \<Rightarrow> string" where
  "fmt2 x =
     (case x of
        Finite s m e \<Rightarrow>
          (let n = round_half_even (m * 100 * 2 ^ nat e) (2 ^ nat (- e))
           in (if s then ''-'' else '''') @ digits (n div 100) @ ''.''
              @ [digit_char (n mod 100 div 10), digit_char (n mod 10)])
      | Infinity s \<Rightarrow> (if s then ''-inf'' else ''inf'')
      | NaN \<Rightarrow> ''nan'')"

section \<open>The script\<close>

subsection \<open>\<open>process_audio\<close>\<close>

text \<open>
  The function returns the session state, the requests it sent to the transcription
  service, and the transcript's text or the exception that left it. The session state
  changes in one place, after every outside call has returned.
\<close>

definition transcription_request :: "string \<Rightarrow> bytes \<Rightarrow> request" where
  "transcription_request temp_path data =
     \<lparr>req_file_name = temp_path, req_file_data = data,
      req_model = ''whisper-large-v3'', req_language = ''vi'',
      req_response_format = ''verbose_json''\<rparr>"

definition process_audio ::
  "env \<Rightarrow> uploaded \<Rightarrow> session_state \<Rightarrow> session_state \<times> request list \<times> (error + string)" where
  "process_audio ev audio_file st =
     (case env_save_temp ev (up_value audio_file) of
        Inl e \<Rightarrow> (st, [], Inl e)
      | Inr temp_path \<Rightarrow>
          (case env_read ev temp_path of
             Inl e \<Rightarrow> (st, [], Inl e)
           | Inr data \<Rightarrow>
               (let req = transcription_request temp_path data
                in case env_create ev req of
                     Inl e \<Rightarrow> (st, [req], Inl e)
                   | Inr transcription \<Rightarrow>
                       (case env_unlink ev temp_path of
                          Inl e \<Rightarrow> (st, [req], Inl e)
                        | Inr u \<Rightarrow>
                            (st\<lparr>ss_segments := Some (tr_segments transcription)\<rparr>, [req],
                             Inr (tr_text transcription))))))"

subsection \<open>The upload section\<close>

text \<open>
  Lines 61 to 100: nothing happens without an uploaded file; a file over the limit gets
  the error message and no button; otherwise a click on the button runs
  \<open>process_audio\<close> inside \<open>try\<close>, and stores the transcript on success.
\<close>

definition upload_section ::
  "env \<Rightarrow> uploaded option \<Rightarrow> bool \<Rightarrow> session_state
     \<Rightarrow> session_state \<times> request list \<times> notice list" where
  "upload_section ev uploaded_file clicked st =
     (case uploaded_file of
        None \<Rightarrow> (st, [], [])
      | Some f \<Rightarrow>
          if up_size f > 20 * 1024 * 1024 then (st, [], [Size_limit_error])
          else if clicked then
            (case process_audio ev f st of
               (st', reqs, Inr transcript) \<Rightarrow>
                 (st'\<lparr>ss_transcript := Some transcript\<rparr>, reqs, [Process_success])
             | (st', reqs, Inl e) \<Rightarrow> (st', reqs, [Process_error e]))
          else (st, [], []))"

subsection \<open>The transcript section\<close>

text \<open>
  \<open>st.text_area\<close> belongs to the page framework. The script is modelled for any
  function of the arguments the script passes (label, value, key, height) as the text the
  widget returns in this run.
\<close>

type_synonym text_area = "string \<Rightarrow> string \<Rightarrow> string \<Rightarrow> nat \<Rightarrow> string"

text \<open>
  A widget that holds, under its key, the text the user has entered: \<open>ui key\<close> is that
  text, and a widget without one shows the \<open>value\<close> it was given.
\<close>

definition widget :: "(string \<rightharpoonup> string) \<Rightarrow> text_area" where
  "widget ui label val key height = (case ui key of Some t \<Rightarrow> t | None \<Rightarrow> val)"

text \<open>
  The framework from one run to the next (Streamlit 1.40): a widget is identified by the
  arguments it is created with; for each widget created in a run the framework keeps the
  text it holds, and what the user types into a widget replaces the text kept for it. In
  the next run a text area returns the text kept for its identity if there is one, else
  \<open>value\<close>.
\<close>

type_synonym widget_id = "string \<times> string \<times> string \<times> nat"

type_synonym kept = "widget_id \<rightharpoonup> string"

definition kept_area :: "kept \<Rightarrow> text_area" where
  "kept_area kp label val key height =
     (case kp (label, val, key, height) of Some t \<Rightarrow> t | None \<Rightarrow> val)"

text \<open>
  \<open>f"segment_{segment['start']}"\<close>: the float is printed by Python's \<open>repr\<close>, which is
  a parameter here.
\<close>

definition segment_key :: "(pyfloat \<Rightarrow> string) \<Rightarrow> 'a segment_scheme \<Rightarrow> string" where
  "segment_key repr seg = ''segment_'' @ repr (seg_start seg)"

text \<open>Lines 143 to 146: the edited text of the key if the dictionary has one, else the segment's.\<close>

definition initial_text :: "(string \<rightharpoonup> string) \<Rightarrow> string \<Rightarrow> 'a segment_scheme \<Rightarrow> string" where
  "initial_text es key seg = (case es key of Some t \<Rightarrow> t | None \<Rightarrow> seg_text seg)"

text \<open>Line 157: \<open>st.session_state['edited_segments'][segment_key] = edited_text\<close>.\<close>

definition set_segment_text :: "string \<Rightarrow> string \<Rightarrow> (string \<rightharpoonup> string) \<Rightarrow> (string \<rightharpoonup> string)" where
  "set_segment_text key t es = es(key \<mapsto> t)"

definition time_range :: "'a segment_scheme \<Rightarrow> string" where
  "time_range seg = fmt2 (seg_start seg) @ '' - '' @ fmt2 (seg_end seg)"

definition time_label :: "'a segment_scheme \<Rightarrow> string" where
  "time_label seg = fmt2 (seg_start seg) @ ''s - '' @ fmt2 (seg_end seg) @ ''s''"

definition area_label :: "'a segment_scheme \<Rightarrow> string" where
  "area_label seg = ''Transcript segment '' @ fmt2 (seg_start seg) @ ''-'' @ fmt2 (seg_end seg)"

definition area_height :: "string \<Rightarrow> nat" where
  "area_height t = max 68 (length t div 40 * 30)"

text \<open>
  \<open>st.text_area\<close> with a key: the framework refuses a key that another widget of the
  same run has been given, and raises. The keys given so far in the run are \<open>used\<close>.
\<close>

definition duplicate_key :: "string \<Rightarrow> string list \<Rightarrow> bool" where
  "duplicate_key key used = (key \<in> set used)"

text \<open>
  The loop of lines 136 to 162 over \<open>segments\<close>, with the dictionary
  \<open>edited_segments\<close>, the keys given to widgets so far, the text areas created so far
  and \<open>segments_data\<close> as its state. When a text area raises, the loop ends there: the
  dictionary keeps the entries written so far, and \<open>segments_data\<close> is lost with the
  exception.
\<close>

fun segments_loop ::
  "text_area \<Rightarrow> (pyfloat \<Rightarrow> string) \<Rightarrow> segment list \<Rightarrow> (string \<rightharpoonup> string) \<Rightarrow> string list
     \<Rightarrow> cell list \<Rightarrow> row list \<Rightarrow> (string \<rightharpoonup> string) \<times> cell list \<times> (error + row list)" where
  "segments_loop ta repr [] es used page segments_data = (es, page, Inr segments_data)"
| "segments_loop ta repr (seg # segs) es used page segments_data =
     (let key = segment_key repr seg;
          initial = initial_text es key seg
      in if duplicate_key key used then (es, page, Inl (Duplicate_widget_key key))
         else
           (let edited_text = ta (area_label seg) initial key (area_height initial)
            in segments_loop ta repr segs (set_segment_text key edited_text es) (key # used)
                 (page @ [\<lparr>cell_time = time_label seg, cell_label = area_label seg,
                            cell_value = initial, cell_key = key, cell_text = edited_text\<rparr>])
                 (segments_data @ [\<lparr>Time = time_range seg, Content = edited_text\<rparr>])))"

text \<open>
  The texts the framework keeps after a run: for each text area created in the run, the
  text it holds, under the arguments that identify the widget.
\<close>

definition cell_id :: "cell \<Rightarrow> widget_id" where
  "cell_id c = (cell_label c, cell_value c, cell_key c, area_height (cell_value c))"

definition kept_of :: "cell list \<Rightarrow> kept" where
  "kept_of page = map_of (map (\<lambda>c. (cell_id c, cell_text c)) page)"

definition full_id :: "string \<Rightarrow> widget_id" where
  "full_id transcript = (''Transcript:'', transcript, ''transcript_display'', 300)"

text \<open>
  What the transcript section shows and offers for download, the exception that ended the
  section if one was raised, and the texts the framework keeps for the next run.
\<close>

record view =
  view_full :: "string option"
  view_txt :: "string option"
  view_page :: "cell list"
  view_table :: "row list option"
  view_error :: "error option"
  view_kept :: kept

text \<open>\<open>st.session_state.get('segments', [])\<close>.\<close>

definition current_segments :: "session_state \<Rightarrow> segment list" where
  "current_segments st = (case ss_segments st of None \<Rightarrow> [] | Some segs \<Rightarrow> segs)"

text \<open>Lines 130 and 131: the dictionary of edits, created empty when the key is missing.\<close>

definition current_edits :: "session_state \<Rightarrow> (string \<rightharpoonup> string)" where
  "current_edits st = (case ss_edited_segments st of None \<Rightarrow> Map.empty | Some es \<Rightarrow> es)"

text \<open>
  Lines 103 to 176. Without a transcript in the session state nothing is shown. The first
  tab shows the text area of the whole transcript, stores what it returns and offers it as
  the text file. The second tab creates the dictionary of edits if it is missing and runs
  the loop; the table is offered when the loop has ended without an exception and
  \<open>segments_data\<close> has a row.
\<close>

definition transcript_section ::
  "text_area \<Rightarrow> (pyfloat \<Rightarrow> string) \<Rightarrow> session_state \<Rightarrow> session_state \<times> view" where
  "transcript_section ta repr st =
     (case ss_transcript st of
        None \<Rightarrow>
          (st, \<lparr>view_full = None, view_txt = None, view_page = [], view_table = None,
                view_error = None, view_kept = Map.empty\<rparr>)
      | Some transcript \<Rightarrow>
          (let edited_full_transcript = ta ''Transcript:'' transcript ''transcript_display'' 300;
               st1 = st\<lparr>ss_edited_transcript := Some edited_full_transcript\<rparr>;
               segments = current_segments st1;
               (es, page, result) =
                 segments_loop ta repr segments (current_edits st1) [''transcript_display''] [] []
           in (st1\<lparr>ss_edited_segments := Some es\<rparr>,
               \<lparr>view_full = Some edited_full_transcript,
                view_txt = ss_edited_transcript st1,
                view_page = page,
                view_table =
                  (case result of
                     Inl e \<Rightarrow> None
                   | Inr segments_data \<Rightarrow> if segments_data = [] then None else Some segments_data),
                view_error = (case result of Inl e \<Rightarrow> Some e | Inr segments_data \<Rightarrow> None),
                view_kept = (kept_of page)(full_id transcript \<mapsto> edited_full_transcript)\<rparr>)))"

subsection \<open>One run of the script\<close>

text \<open>
  The upload section, then the transcript section. An exception of the transcript section
  ends the run; what the session state holds by then stays.
\<close>

definition script ::
  "env \<Rightarrow> text_area \<Rightarrow> (pyfloat \<Rightarrow> string) \<Rightarrow> uploaded option \<Rightarrow> bool \<Rightarrow> session_state
     \<Rightarrow> session_state \<times> request list \<times> notice list \<times> view" where
  "script ev ta repr uploaded_file clicked st =
     (case upload_section ev uploaded_file clicked st of
        (st1, reqs, notices) \<Rightarrow>
          (case transcript_section ta repr st1 of
             (st2, v) \<Rightarrow> (st2, reqs, notices, v)))"

text \<open>The parts of a run of the script: the session state, the requests, the messages, the view.\<close>

definition run_state ::
  "session_state \<times> request list \<times> notice list \<times> view \<Rightarrow> session_state" where
  "run_state r = fst r"

definition run_requests ::
  "session_state \<times> request list \<times> notice list \<times> view \<Rightarrow> request list" where
  "run_requests r = fst (snd r)"

definition run_notices ::
  "session_state \<times> request list \<times> notice list \<times> view \<Rightarrow> notice list" where
  "run_notices r = fst (snd (snd r))"

definition run_view ::
  "session_state \<times> request list \<times> notice list \<times> view \<Rightarrow> view" where
  "run_view r = snd (snd (snd r))"

section \<open>Reading the loop's result\<close>

text \<open>The loop started with the keys \<open>used\<close> and nothing on the page.\<close>

definition dict_from ::
  "text_area \<Rightarrow> (pyfloat \<Rightarrow> string) \<Rightarrow> segment list \<Rightarrow> (string \<rightharpoonup> string) \<Rightarrow> string list
     \<Rightarrow> (string \<rightharpoonup> string)" where
  "dict_from ta repr segs es used = fst (segments_loop ta repr segs es used [] [])"

definition page_from ::
  "text_area \<Rightarrow> (pyfloat \<Rightarrow> string) \<Rightarrow> segment list \<Rightarrow> (string \<rightharpoonup> string) \<Rightarrow> string list
     \<Rightarrow> cell list" where
  "page_from ta repr segs es used = fst (snd (segments_loop ta repr segs es used [] []))"

definition result_from ::
  "text_area \<Rightarrow> (pyfloat \<Rightarrow> string) \<Rightarrow> segment list \<Rightarrow> (string \<rightharpoonup> string) \<Rightarrow> string list
     \<Rightarrow> error + row list" where
  "result_from ta repr segs es used = snd (snd (segments_loop ta repr segs es used [] []))"

text \<open>The loop as the transcript section starts it: the key of the first tab's text area is used.\<close>

definition loop_dict ::
  "text_area \<Rightarrow> (pyfloat \<Rightarrow> string) \<Rightarrow> segment list \<Rightarrow> (string \<rightharpoonup> string) \<Rightarrow> (string \<rightharpoonup> string)" where
  "loop_dict ta repr segs es = dict_from ta repr segs es [''transcript_display'']"

definition loop_page ::
  "text_area \<Rightarrow> (pyfloat \<Rightarrow> string) \<Rightarrow> segment list \<Rightarrow> (string \<rightharpoonup> string) \<Rightarrow> cell list" where
  "loop_page ta repr segs es = page_from ta repr segs es [''transcript_display'']"

definition loop_result ::
  "text_area \<Rightarrow> (pyfloat \<Rightarrow> string) \<Rightarrow> segment list \<Rightarrow> (string \<rightharpoonup> string) \<Rightarrow> error + row list" where
  "loop_result ta repr segs es = result_from ta repr segs es [''transcript_display'']"

text \<open>The text one pass of the loop gets back from the text area of a segment.\<close>

definition edited_of ::
  "text_area \<Rightarrow> (pyfloat \<Rightarrow> string) \<Rightarrow> (string \<rightharpoonup> string) \<Rightarrow> segment \<Rightarrow> string" where
  "edited_of ta repr es seg =
     ta (area_label seg) (initial_text es (segment_key repr seg) seg) (segment_key repr seg)
        (area_height (initial_text es (segment_key repr seg) seg))"

text \<open>The text area of a segment as the loop creates it from the dictionary \<open>es\<close>.\<close>

definition cell_of ::
  "text_area \<Rightarrow> (pyfloat \<Rightarrow> string) \<Rightarrow> (string \<rightharpoonup> string) \<Rightarrow> segment \<Rightarrow> cell" where
  "cell_of ta repr es seg =
     \<lparr>cell_time = time_label seg, cell_label = area_label seg,
      cell_value = initial_text es (segment_key repr seg) seg,
      cell_key = segment_key repr seg, cell_text = edited_of ta repr es seg\<rparr>"

definition row_of ::
  "text_area \<Rightarrow> (pyfloat \<Rightarrow> string) \<Rightarrow> (string \<rightharpoonup> string) \<Rightarrow> segment \<Rightarrow> row" where
  "row_of ta repr es seg = \<lparr>Time = time_range seg, Content = edited_of ta repr es seg\<rparr>"

section \<open>Concrete inputs\<close>

text \<open>
  Python's \<open>repr\<close> on the floats with a whole value below \<open>10 ^ 16\<close> (exponent not
  negative): the digits of the value and \<open>.0\<close>. It stands for \<open>repr\<close> where the script
  is run on such times.
\<close>

definition repr_whole :: "pyfloat \<Rightarrow> string" where
  "repr_whole x =
     (case x of
        Finite s m e \<Rightarrow> (if s then ''-'' else '''') @ digits (m * 2 ^ nat e) @ ''.0''
      | Infinity s \<Rightarrow> (if s then ''-inf'' else ''inf'')
      | NaN \<Rightarrow> ''nan'')"

definition seconds :: "nat \<Rightarrow> pyfloat" where
  "seconds n = Finite False n 0"

definition seg_hello :: segment where
  "seg_hello = \<lparr>seg_start = seconds 0, seg_end = seconds 1, seg_text = ''hello''\<rparr>"

definition seg_world :: segment where
  "seg_world = \<lparr>seg_start = seconds 1, seg_end = seconds 2, seg_text = ''world''\<rparr>"

definition hello_world :: transcription where
  "hello_world = \<lparr>tr_text = ''hello world'', tr_segments = [seg_hello, seg_world]\<rparr>"

definition seg_bye :: segment where
  "seg_bye = \<lparr>seg_start = seconds 0, seg_end = seconds 1, seg_text = ''bye''\<rparr>"

definition bye :: transcription where
  "bye = \<lparr>tr_text = ''bye'', tr_segments = [seg_bye]\<rparr>"

text \<open>An outside world in which every call succeeds and the service answers \<open>tr\<close>.\<close>

definition env_ok :: "transcription \<Rightarrow> env" where
  "env_ok tr =
     \<lparr>env_save_temp = (\<lambda>b. Inr ''/tmp/upload.mp3''), env_read = (\<lambda>p. Inr []),
      env_create = (\<lambda>r. Inr tr), env_unlink = (\<lambda>p. Inr ())\<rparr>"

text \<open>An outside world in which the transcription request raises.\<close>

definition env_down :: env where
  "env_down =
     \<lparr>env_save_temp = (\<lambda>b. Inr ''/tmp/upload.mp3''), env_read = (\<lambda>p. Inr []),
      env_create = (\<lambda>r. Inl (Exception ''service unavailable'')), env_unlink = (\<lambda>p. Inr ())\<rparr>"

definition small_file :: uploaded where
  "small_file = \<lparr>up_size = 1000, up_type = ''audio/mpeg'', up_value = []\<rparr>"

definition big_file :: uploaded where
  "big_file = \<lparr>up_size = 20 * 1024 * 1024 + 1, up_type = ''audio/mpeg'', up_value = []\<rparr>"

definition fresh :: session_state where
  "fresh = \<lparr>ss_transcript = None, ss_segments = None, ss_edited_transcript = None,
            ss_edited_segments = None\<rparr>"

text \<open>
  Session states of the example of two segments: after two edits have been stored, and
  right after the transcription.
\<close>

definition edited_session :: session_state where
  "edited_session =
     \<lparr>ss_transcript = Some ''hello world'', ss_segments = Some [seg_hello, seg_world],
      ss_edited_transcript = Some ''hello there'',
      ss_edited_segments = Some [''segment_0.0'' \<mapsto> ''hi'', ''segment_1.0'' \<mapsto> ''world'']\<rparr>"

definition ingested :: session_state where
  "ingested =
     \<lparr>ss_transcript = Some ''hello world'', ss_segments = Some [seg_hello, seg_world],
      ss_edited_transcript = None, ss_edited_segments = None\<rparr>"

definition seg_first :: segment where
  "seg_first = \<lparr>seg_start = seconds 0, seg_end = seconds 1, seg_text = ''first''\<rparr>"

definition seg_second :: segment where
  "seg_second = \<lparr>seg_start = seconds 0, seg_end = seconds 2, seg_text = ''second''\<rparr>"

definition hello :: transcription where
  "hello = \<lparr>tr_text = ''hello'', tr_segments = [seg_hello]\<rparr>"

text \<open>A session state with two segments of one start, right after the transcription.\<close>

definition collided :: session_state where
  "collided =
     \<lparr>ss_transcript = Some ''first second'', ss_segments = Some [seg_first, seg_second],
      ss_edited_transcript = None, ss_edited_segments = None\<rparr>"

text \<open>
  The texts the framework keeps when the user has emptied the text area of the whole
  transcript and the text area of the first segment of the example.
\<close>

definition emptied :: kept where
  "emptied =
     [full_id ''hello world'' \<mapsto> [],
      (area_label seg_hello, seg_text seg_hello, segment_key repr_whole seg_hello,
       area_height (seg_text seg_hello)) \<mapsto> []]"

section \<open>The loop, one segment at a time\<close>

lemma loop_acc_raw:
  "segments_loop ta repr segs es used page rows =
     (case segments_loop ta repr segs es used [] [] of
        (es', p, r) \<Rightarrow>
          (es', page @ p, case r of Inl e \<Rightarrow> Inl e | Inr rows' \<Rightarrow> Inr (rows @ rows')))"
proof (induction segs arbitrary: es used page rows)
  case Nil
  show ?case by simp
next
  case (Cons seg segs)
  define key where "key = segment_key repr seg"
  define edited where "edited = edited_of ta repr es seg"
  define c where "c = cell_of ta repr es seg"
  define r where "r = row_of ta repr es seg"
  define es1 where "es1 = set_segment_text key edited es"
  show ?case
  proof (cases "duplicate_key key used")
    case True
    then show ?thesis
      by (simp add: Let_def key_def)
  next
    case False
    then have step: "segments_loop ta repr (seg # segs) es used pg rw =
        segments_loop ta repr segs es1 (key # used) (pg @ [c]) (rw @ [r])" for pg rw
      by (simp add: Let_def key_def edited_def c_def r_def es1_def edited_of_def cell_of_def
          row_of_def)
    have a: "segments_loop ta repr segs es1 (key # used) (page @ [c]) (rows @ [r]) =
        (case segments_loop ta repr segs es1 (key # used) [] [] of
           (es', p, r') \<Rightarrow>
             (es', (page @ [c]) @ p,
              case r' of Inl e \<Rightarrow> Inl e | Inr rows' \<Rightarrow> Inr ((rows @ [r]) @ rows')))"
      by (rule Cons.IH)
    have b: "segments_loop ta repr segs es1 (key # used) ([] @ [c]) ([] @ [r]) =
        (case segments_loop ta repr segs es1 (key # used) [] [] of
           (es', p, r') \<Rightarrow>
             (es', ([] @ [c]) @ p,
              case r' of Inl e \<Rightarrow> Inl e | Inr rows' \<Rightarrow> Inr (([] @ [r]) @ rows')))"
      by (rule Cons.IH)
    show ?thesis
      unfolding step a b by (simp split: prod.splits sum.splits)
  qed
qed

lemma loop_acc:
  "segments_loop ta repr segs es used page rows =
     (dict_from ta repr segs es used, page @ page_from ta repr segs es used,
      case result_from ta repr segs es used of
        Inl e \<Rightarrow> Inl e | Inr rows' \<Rightarrow> Inr (rows @ rows'))"
  by (subst loop_acc_raw)
     (simp add: dict_from_def page_from_def result_from_def split: prod.splits)

lemma dict_from_Nil: "dict_from ta repr [] es used = es"
  by (simp add: dict_from_def)

lemma page_from_Nil: "page_from ta repr [] es used = []"
  by (simp add: page_from_def)

lemma result_from_Nil: "result_from ta repr [] es used = Inr []"
  by (simp add: result_from_def)

lemma dict_from_Cons:
  "dict_from ta repr (seg # segs) es used =
     (if duplicate_key (segment_key repr seg) used then es
      else dict_from ta repr segs
             (set_segment_text (segment_key repr seg) (edited_of ta repr es seg) es)
             (segment_key repr seg # used))"
  unfolding dict_from_def [of _ _ "seg # segs"] segments_loop.simps Let_def
  by (subst loop_acc) (simp add: edited_of_def)

lemma page_from_Cons:
  "page_from ta repr (seg # segs) es used =
     (if duplicate_key (segment_key repr seg) used then []
      else cell_of ta repr es seg
           # page_from ta repr segs
               (set_segment_text (segment_key repr seg) (edited_of ta repr es seg) es)
               (segment_key repr seg # used))"
  unfolding page_from_def [of _ _ "seg # segs"] segments_loop.simps Let_def
  by (subst loop_acc) (simp add: edited_of_def cell_of_def)

lemma result_from_Cons:
  "result_from ta repr (seg # segs) es used =
     (if duplicate_key (segment_key repr seg) used
      then Inl (Duplicate_widget_key (segment_key repr seg))
      else (case result_from ta repr segs
                   (set_segment_text (segment_key repr seg) (edited_of ta repr es seg) es)
                   (segment_key repr seg # used) of
              Inl e \<Rightarrow> Inl e
            | Inr rows \<Rightarrow> Inr (row_of ta repr es seg # rows)))"
  unfolding result_from_def [of _ _ "seg # segs"] segments_loop.simps Let_def
  by (subst loop_acc) (simp add: edited_of_def row_of_def split: sum.splits)

lemmas loop_simps =
  dict_from_Nil page_from_Nil result_from_Nil dict_from_Cons page_from_Cons result_from_Cons

lemma cell_of_sel:
  "cell_key (cell_of ta repr es seg) = segment_key repr seg"
  "cell_text (cell_of ta repr es seg) = edited_of ta repr es seg"
  "cell_value (cell_of ta repr es seg) = initial_text es (segment_key repr seg) seg"
  "cell_label (cell_of ta repr es seg) = area_label seg"
  "cell_time (cell_of ta repr es seg) = time_label seg"
  by (simp_all add: cell_of_def)

text \<open>A key that is used is not written by the loop.\<close>

lemma dict_from_used:
  "k \<in> set used \<Longrightarrow> dict_from ta repr segs es used k = es k"
proof (induction segs arbitrary: es used)
  case Nil
  show ?case by (simp add: dict_from_Nil)
next
  case (Cons seg segs)
  show ?case
  proof (cases "duplicate_key (segment_key repr seg) used")
    case True
    then show ?thesis by (simp add: dict_from_Cons)
  next
    case False
    with Cons.prems have ne: "k \<noteq> segment_key repr seg"
      by (auto simp add: duplicate_key_def)
    have "k \<in> set (segment_key repr seg # used)"
      using Cons.prems by simp
    then show ?thesis
      using False ne by (simp add: dict_from_Cons Cons.IH set_segment_text_def)
  qed
qed

lemma page_from_fresh:
  "c \<in> set (page_from ta repr segs es used) \<Longrightarrow> cell_key c \<notin> set used"
proof (induction segs arbitrary: es used)
  case Nil
  then show ?case by (simp add: page_from_Nil)
next
  case (Cons seg segs)
  show ?case
  proof (cases "duplicate_key (segment_key repr seg) used")
    case True
    with Cons.prems show ?thesis by (simp add: page_from_Cons)
  next
    case False
    with Cons.prems have "c = cell_of ta repr es seg \<or>
        c \<in> set (page_from ta repr segs
                   (set_segment_text (segment_key repr seg) (edited_of ta repr es seg) es)
                   (segment_key repr seg # used))"
      by (simp add: page_from_Cons)
    then show ?thesis
    proof
      assume "c = cell_of ta repr es seg"
      with False show ?thesis by (simp add: cell_of_sel duplicate_key_def)
    next
      assume "c \<in> set (page_from ta repr segs
                   (set_segment_text (segment_key repr seg) (edited_of ta repr es seg) es)
                   (segment_key repr seg # used))"
      then have "cell_key c \<notin> set (segment_key repr seg # used)"
        by (rule Cons.IH)
      then show ?thesis by simp
    qed
  qed
qed

lemma page_from_distinct: "distinct (map cell_key (page_from ta repr segs es used))"
proof (induction segs arbitrary: es used)
  case Nil
  show ?case by (simp add: page_from_Nil)
next
  case (Cons seg segs)
  show ?case
  proof (cases "duplicate_key (segment_key repr seg) used")
    case True
    then show ?thesis by (simp add: page_from_Cons)
  next
    case False
    let ?P = "page_from ta repr segs
                   (set_segment_text (segment_key repr seg) (edited_of ta repr es seg) es)
                   (segment_key repr seg # used)"
    have "segment_key repr seg \<notin> cell_key ` set ?P"
    proof
      assume "segment_key repr seg \<in> cell_key ` set ?P"
      then obtain c where c: "c \<in> set ?P" and k: "cell_key c = segment_key repr seg"
        by (auto simp add: image_iff)
      from page_from_fresh [OF c] k show False
        by simp
    qed
    with False show ?thesis
      by (simp add: page_from_Cons Cons.IH cell_of_sel)
  qed
qed

text \<open>After the loop the dictionary holds, under the key of every text area created, its text.\<close>

lemma dict_from_cell:
  "c \<in> set (page_from ta repr segs es used) \<Longrightarrow>
   dict_from ta repr segs es used (cell_key c) = Some (cell_text c)"
proof (induction segs arbitrary: es used)
  case Nil
  then show ?case by (simp add: page_from_Nil)
next
  case (Cons seg segs)
  let ?k = "segment_key repr seg"
  let ?es1 = "set_segment_text ?k (edited_of ta repr es seg) es"
  show ?case
  proof (cases "duplicate_key ?k used")
    case True
    with Cons.prems show ?thesis by (simp add: page_from_Cons)
  next
    case False
    with Cons.prems have "c = cell_of ta repr es seg \<or>
        c \<in> set (page_from ta repr segs ?es1 (?k # used))"
      by (simp add: page_from_Cons)
    then show ?thesis
    proof
      assume c: "c = cell_of ta repr es seg"
      have "dict_from ta repr segs ?es1 (?k # used) ?k = ?es1 ?k"
        by (rule dict_from_used) simp
      with False c show ?thesis
        by (simp add: dict_from_Cons cell_of_sel set_segment_text_def)
    next
      assume "c \<in> set (page_from ta repr segs ?es1 (?k # used))"
      then have "dict_from ta repr segs ?es1 (?k # used) (cell_key c) = Some (cell_text c)"
        by (rule Cons.IH)
      with False show ?thesis by (simp add: dict_from_Cons)
    qed
  qed
qed

text \<open>
  A second pass of the loop, from the dictionary the first pass has left, with text areas
  that return the text of the first pass when they are given it as \<open>value\<close>.
\<close>

lemma loop_repeat:
  assumes "\<forall>c \<in> set (page_from ta repr segs es used).
             \<forall>l h. ta2 l (cell_text c) (cell_key c) h = cell_text c"
  shows "dict_from ta2 repr segs (dict_from ta repr segs es used) used = dict_from ta repr segs es used
    \<and> map cell_text (page_from ta2 repr segs (dict_from ta repr segs es used) used)
        = map cell_text (page_from ta repr segs es used)
    \<and> map cell_key (page_from ta2 repr segs (dict_from ta repr segs es used) used)
        = map cell_key (page_from ta repr segs es used)"
  using assms
proof (induction segs arbitrary: es used)
  case Nil
  show ?case by (simp add: loop_simps)
next
  case (Cons seg segs)
  let ?k = "segment_key repr seg"
  define v where "v = edited_of ta repr es seg"
  let ?es1 = "set_segment_text ?k v es"
  let ?E = "dict_from ta repr segs ?es1 (?k # used)"
  show ?case
  proof (cases "duplicate_key ?k used")
    case True
    then show ?thesis by (simp add: loop_simps)
  next
    case False
    have E: "dict_from ta repr (seg # segs) es used = ?E"
      and P: "page_from ta repr (seg # segs) es used
                = cell_of ta repr es seg # page_from ta repr segs ?es1 (?k # used)"
      using False by (simp_all add: loop_simps v_def)
    have tx: "cell_text (cell_of ta repr es seg) = v" "cell_key (cell_of ta repr es seg) = ?k"
      by (simp_all add: cell_of_sel v_def)
    have Ek: "?E ?k = Some v"
      using dict_from_used [of ?k "?k # used" ta repr segs ?es1] by (simp add: set_segment_text_def)
    have init: "initial_text ?E ?k seg = v"
      by (simp add: initial_text_def Ek)
    have ret: "ta2 l v ?k h = v" for l h
      using Cons.prems unfolding P by (simp add: tx)
    have v2: "edited_of ta2 repr ?E seg = v"
      by (simp add: edited_of_def [of ta2] init ret)
    have E2: "set_segment_text ?k v ?E = ?E"
      using Ek by (auto simp add: set_segment_text_def)
    have rest: "\<forall>c \<in> set (page_from ta repr segs ?es1 (?k # used)).
             \<forall>l h. ta2 l (cell_text c) (cell_key c) h = cell_text c"
      using Cons.prems unfolding P by simp
    note IH = Cons.IH [OF rest]
    have d2: "dict_from ta2 repr (seg # segs) ?E used = dict_from ta2 repr segs ?E (?k # used)"
      and p2: "page_from ta2 repr (seg # segs) ?E used
                = cell_of ta2 repr ?E seg # page_from ta2 repr segs ?E (?k # used)"
      using False by (simp_all add: loop_simps v2 E2)
    have tx2: "cell_text (cell_of ta2 repr ?E seg) = v" "cell_key (cell_of ta2 repr ?E seg) = ?k"
      by (simp_all add: cell_of_sel v2)
    show ?thesis
      unfolding E P d2 p2 using IH by (simp add: tx tx2)
  qed
qed

section \<open>The transcript section\<close>

lemma transcript_section_None:
  "ss_transcript st = None \<Longrightarrow>
   transcript_section ta repr st =
     (st, \<lparr>view_full = None, view_txt = None, view_page = [], view_table = None,
           view_error = None, view_kept = Map.empty\<rparr>)"
  by (simp add: transcript_section_def)

lemma transcript_section_Some:
  "ss_transcript st = Some full \<Longrightarrow>
   transcript_section ta repr st =
     (st\<lparr>ss_edited_transcript := Some (ta ''Transcript:'' full ''transcript_display'' 300),
         ss_edited_segments := Some (loop_dict ta repr (current_segments st) (current_edits st))\<rparr>,
      \<lparr>view_full = Some (ta ''Transcript:'' full ''transcript_display'' 300),
       view_txt = Some (ta ''Transcript:'' full ''transcript_display'' 300),
       view_page = loop_page ta repr (current_segments st) (current_edits st),
       view_table =
         (case loop_result ta repr (current_segments st) (current_edits st) of
            Inl e \<Rightarrow> None
          | Inr segments_data \<Rightarrow> if segments_data = [] then None else Some segments_data),
       view_error =
         (case loop_result ta repr (current_segments st) (current_edits st) of
            Inl e \<Rightarrow> Some e
          | Inr segments_data \<Rightarrow> None),
       view_kept =
         (kept_of (loop_page ta repr (current_segments st) (current_edits st)))
           (full_id full \<mapsto> ta ''Transcript:'' full ''transcript_display'' 300)\<rparr>)"
  by (simp add: transcript_section_def Let_def loop_acc loop_dict_def loop_page_def
      loop_result_def current_segments_def current_edits_def split: sum.splits)

text \<open>The state after the transcript section.\<close>

lemma transcript_section_state:
  assumes "ss_transcript st = Some full"
  shows "ss_transcript (fst (transcript_section ta repr st)) = Some full"
    and "ss_segments (fst (transcript_section ta repr st)) = ss_segments st"
    and "current_segments (fst (transcript_section ta repr st)) = current_segments st"
    and "current_edits (fst (transcript_section ta repr st))
           = loop_dict ta repr (current_segments st) (current_edits st)"
    and "ss_edited_transcript (fst (transcript_section ta repr st))
           = Some (ta ''Transcript:'' full ''transcript_display'' 300)"
  using assms
  by (simp_all add: transcript_section_Some current_segments_def current_edits_def)

section \<open>The upload section\<close>

lemma process_audio_failure:
  "snd (snd (process_audio ev f st)) = Inl e \<Longrightarrow> fst (process_audio ev f st) = st"
  by (auto simp add: process_audio_def Let_def split: sum.splits)

lemma process_audio_success:
  "process_audio ev f st = (st', reqs, Inr t) \<Longrightarrow>
   \<exists>p d tr. env_create ev (transcription_request p d) = Inr tr \<and>
            reqs = [transcription_request p d] \<and> t = tr_text tr \<and>
            st' = st\<lparr>ss_segments := Some (tr_segments tr)\<rparr>"
  by (auto simp add: process_audio_def Let_def split: sum.splits)

lemma process_audio_requests:
  "r \<in> set (fst (snd (process_audio ev f st))) \<Longrightarrow> \<exists>p d. r = transcription_request p d"
  by (auto simp add: process_audio_def Let_def split: sum.splits)

lemma upload_section_requests:
  "r \<in> set (fst (snd (upload_section ev uploaded_file clicked st))) \<Longrightarrow>
   \<exists>p d. r = transcription_request p d"
proof -
  assume r: "r \<in> set (fst (snd (upload_section ev uploaded_file clicked st)))"
  show ?thesis
  proof (cases uploaded_file)
    case None
    with r show ?thesis by (simp add: upload_section_def)
  next
    case (Some f)
    obtain st' reqs res where p: "process_audio ev f st = (st', reqs, res)"
      by (cases "process_audio ev f st") auto
    from r Some p have "r \<in> set reqs"
      by (cases res) (auto simp add: upload_section_def split: if_splits)
    with p show ?thesis
      using process_audio_requests [of r ev f st] by simp
  qed
qed

lemma script_requests:
  "run_requests (script ev ta repr uploaded_file clicked st) =
   fst (snd (upload_section ev uploaded_file clicked st))"
  by (simp add: script_def run_requests_def split: prod.splits)

lemma script_after_upload:
  "upload_section ev uploaded_file clicked st = (st1, reqs, notices) \<Longrightarrow>
   script ev ta repr uploaded_file clicked st =
     (fst (transcript_section ta repr st1), reqs, notices, snd (transcript_section ta repr st1))"
  by (simp add: script_def split: prod.splits)

lemma upload_section_changes:
  "fst (upload_section ev uploaded_file clicked st) \<noteq> st \<Longrightarrow>
   \<exists>p d tr. env_create ev (transcription_request p d) = Inr tr \<and>
     fst (upload_section ev uploaded_file clicked st) =
       st\<lparr>ss_segments := Some (tr_segments tr), ss_transcript := Some (tr_text tr)\<rparr>"
proof -
  assume ch: "fst (upload_section ev uploaded_file clicked st) \<noteq> st"
  then obtain f where f: "uploaded_file = Some f" and small: "\<not> 20 * 1024 * 1024 < up_size f"
    and cl: clicked
    by (cases uploaded_file) (auto simp add: upload_section_def split: if_splits)
  obtain st' reqs res where p: "process_audio ev f st = (st', reqs, res)"
    by (cases "process_audio ev f st") auto
  show ?thesis
  proof (cases res)
    case (Inl e)
    with p have "st' = st"
      using process_audio_failure [of ev f st e] by simp
    with ch f small cl p Inl show ?thesis
      by (simp add: upload_section_def)
  next
    case (Inr t)
    with p obtain pa d tr where tr: "env_create ev (transcription_request pa d) = Inr tr"
      and t: "t = tr_text tr" and st': "st' = st\<lparr>ss_segments := Some (tr_segments tr)\<rparr>"
      using process_audio_success [of ev f st st' reqs t] by auto
    have "fst (upload_section ev uploaded_file clicked st) =
        st\<lparr>ss_segments := Some (tr_segments tr), ss_transcript := Some (tr_text tr)\<rparr>"
      using f small cl p Inr t st' by (simp add: upload_section_def)
    with tr show ?thesis by blast
  qed
qed

lemma upload_section_create_fails:
  assumes "env_save_temp ev (up_value f) = Inr p" and "env_read ev p = Inr d"
    and "env_create ev (transcription_request p d) = Inl e"
    and "up_size f \<le> 20 * 1024 * 1024"
  shows "upload_section ev (Some f) True st = (st, [transcription_request p d], [Process_error e])"
  using assms by (simp add: upload_section_def process_audio_def Let_def)

section \<open>Claims about the upload section\<close>

text \<open>
  C5. When the transcription request raises, the upload section shows the error and leaves
  the session state as it was, and the whole run is a re-display of the state as it
  was. Whenever the upload section changes the session state, the request has returned a
  transcription, and the change is that its segments and text are stored.
\<close>

theorem failed_transcription_keeps_state:
  "(env_save_temp ev (up_value f) = Inr p \<and> env_read ev p = Inr d \<and>
    env_create ev (transcription_request p d) = Inl e \<and> up_size f \<le> 20 * 1024 * 1024
    \<longrightarrow> upload_section ev (Some f) True st = (st, [transcription_request p d], [Process_error e])
      \<and> script ev ta repr (Some f) True st =
          (fst (transcript_section ta repr st), [transcription_request p d], [Process_error e],
           snd (transcript_section ta repr st)))
   \<and> (fst (upload_section ev uploaded_file clicked st) \<noteq> st
    \<longrightarrow> (\<exists>p d tr. env_create ev (transcription_request p d) = Inr tr \<and>
          fst (upload_section ev uploaded_file clicked st) =
            st\<lparr>ss_segments := Some (tr_segments tr), ss_transcript := Some (tr_text tr)\<rparr>))"
proof (intro conjI impI)
  assume a: "env_save_temp ev (up_value f) = Inr p \<and> env_read ev p = Inr d \<and>
    env_create ev (transcription_request p d) = Inl e \<and> up_size f \<le> 20 * 1024 * 1024"
  then show u: "upload_section ev (Some f) True st = (st, [transcription_request p d], [Process_error e])"
    by (simp add: upload_section_create_fails)
  show "script ev ta repr (Some f) True st =
          (fst (transcript_section ta repr st), [transcription_request p d], [Process_error e],
           snd (transcript_section ta repr st))"
    by (rule script_after_upload [OF u])
next
  assume "fst (upload_section ev uploaded_file clicked st) \<noteq> st"
  then show "\<exists>p d tr. env_create ev (transcription_request p d) = Inr tr \<and>
          fst (upload_section ev uploaded_file clicked st) =
            st\<lparr>ss_segments := Some (tr_segments tr), ss_transcript := Some (tr_text tr)\<rparr>"
    by (rule upload_section_changes)
qed

theorem failed_transcription_keeps_state_witness:
  "upload_section env_down (Some small_file) True edited_session =
     (edited_session, [transcription_request ''/tmp/upload.mp3'' []],
      [Process_error (Exception ''service unavailable'')])
   \<and> fst (upload_section (env_ok bye) (Some small_file) True edited_session) \<noteq> edited_session
   \<and> (\<exists>p d tr. env_create (env_ok bye) (transcription_request p d) = Inr tr \<and>
          fst (upload_section (env_ok bye) (Some small_file) True edited_session) =
            edited_session\<lparr>ss_segments := Some (tr_segments tr), ss_transcript := Some (tr_text tr)\<rparr>)"
proof -
  have ch: "fst (upload_section (env_ok bye) (Some small_file) True edited_session) \<noteq> edited_session"
    by (simp add: upload_section_def process_audio_def Let_def env_ok_def small_file_def
        edited_session_def bye_def)
  have dn: "env_save_temp env_down (up_value small_file) = Inr ''/tmp/upload.mp3'' \<and>
      env_read env_down ''/tmp/upload.mp3'' = Inr [] \<and>
      env_create env_down (transcription_request ''/tmp/upload.mp3'' []) =
        Inl (Exception ''service unavailable'') \<and>
      up_size small_file \<le> 20 * 1024 * 1024"
    by (simp add: env_down_def small_file_def)
  show ?thesis
    using failed_transcription_keeps_state
      [of env_down small_file "''/tmp/upload.mp3''" "[]" "Exception ''service unavailable''"
          edited_session "widget Map.empty" repr_whole]
      failed_transcription_keeps_state
      [of "env_ok bye" small_file "''/tmp/upload.mp3''" "[]" "Exception ''service unavailable''"
          edited_session "widget Map.empty" repr_whole "Some small_file" True]
      ch dn
    by blast
qed

text \<open>
  C6. A file of more than 20 * 1024 * 1024 bytes gets the size message: the upload section
  sends no request and leaves the session state as it was, whether or not the button is
  reported as clicked, and the whole run sends no request and is a re-display of the state
  as it was.
\<close>

theorem oversized_upload_rejected:
  "20 * 1024 * 1024 < up_size f \<Longrightarrow>
   upload_section ev (Some f) clicked st = (st, [], [Size_limit_error]) \<and>
   script ev ta repr (Some f) clicked st =
     (fst (transcript_section ta repr st), [], [Size_limit_error],
      snd (transcript_section ta repr st))"
proof -
  assume big: "20 * 1024 * 1024 < up_size f"
  then have u: "upload_section ev (Some f) clicked st = (st, [], [Size_limit_error])"
    by (simp add: upload_section_def)
  show ?thesis
    using u script_after_upload [OF u] by simp
qed

theorem oversized_upload_rejected_witness:
  "20 * 1024 * 1024 < up_size big_file \<and>
   upload_section (env_ok bye) (Some big_file) True edited_session =
     (edited_session, [], [Size_limit_error]) \<and>
   run_requests (script (env_ok bye) (widget Map.empty) repr_whole (Some big_file) True edited_session) = []"
proof -
  have big: "20 * 1024 * 1024 < up_size big_file"
    by (simp add: big_file_def)
  show ?thesis
    using big oversized_upload_rejected
      [OF big, of "env_ok bye" True edited_session "widget Map.empty" repr_whole]
    by (simp add: run_requests_def)
qed

text \<open>
  C10. Every request a run of the script sends names the model \<open>whisper-large-v3\<close> and
  the language \<open>vi\<close>, whatever the uploaded file, the click, the widgets and the session
  state are; a run sends at most one request.
\<close>

theorem transcription_language_fixed:
  "(\<forall>r \<in> set (run_requests (script ev ta repr uploaded_file clicked st)).
      req_language r = ''vi'' \<and> req_model r = ''whisper-large-v3'' \<and>
      req_response_format r = ''verbose_json'')
   \<and> length (run_requests (script ev ta repr uploaded_file clicked st)) \<le> 1"
proof
  show "\<forall>r \<in> set (run_requests (script ev ta repr uploaded_file clicked st)).
      req_language r = ''vi'' \<and> req_model r = ''whisper-large-v3'' \<and>
      req_response_format r = ''verbose_json''"
  proof
    fix r
    assume "r \<in> set (run_requests (script ev ta repr uploaded_file clicked st))"
    then obtain p d where "r = transcription_request p d"
      using upload_section_requests [of r ev uploaded_file clicked st]
      by (auto simp add: script_requests)
    then show "req_language r = ''vi'' \<and> req_model r = ''whisper-large-v3'' \<and>
      req_response_format r = ''verbose_json''"
      by (simp add: transcription_request_def)
  qed
  show "length (run_requests (script ev ta repr uploaded_file clicked st)) \<le> 1"
    by (auto simp add: script_requests upload_section_def process_audio_def Let_def
        split: option.splits sum.splits)
qed

theorem transcription_language_fixed_witness:
  "run_requests (script (env_ok hello_world) (widget Map.empty) repr_whole (Some small_file) True fresh)
     = [transcription_request ''/tmp/upload.mp3'' []]
   \<and> req_language (transcription_request ''/tmp/upload.mp3'' []) = ''vi''
   \<and> req_model (transcription_request ''/tmp/upload.mp3'' []) = ''whisper-large-v3''"
proof -
  have r: "run_requests (script (env_ok hello_world) (widget Map.empty) repr_whole (Some small_file) True fresh)
     = [transcription_request ''/tmp/upload.mp3'' []]"
    by (simp add: script_requests upload_section_def process_audio_def Let_def env_ok_def
        small_file_def)
  show ?thesis
    using r transcription_language_fixed
      [of "env_ok hello_world" "widget Map.empty" repr_whole "Some small_file" True fresh]
    by simp
qed

section \<open>Writing an edit\<close>

text \<open>Every text area on the page is the one the loop creates for a segment from some dictionary.\<close>

lemma page_from_cell_of:
  "c \<in> set (page_from ta repr segs es used) \<Longrightarrow> \<exists>es' seg. c = cell_of ta repr es' seg"
proof (induction segs arbitrary: es used)
  case Nil
  then show ?case by (simp add: page_from_Nil)
next
  case (Cons seg segs)
  show ?case
  proof (cases "duplicate_key (segment_key repr seg) used")
    case True
    with Cons.prems show ?thesis by (simp add: page_from_Cons)
  next
    case False
    with Cons.prems have "c = cell_of ta repr es seg \<or>
        c \<in> set (page_from ta repr segs
                   (set_segment_text (segment_key repr seg) (edited_of ta repr es seg) es)
                   (segment_key repr seg # used))"
      by (simp add: page_from_Cons)
    then show ?thesis
      using Cons.IH by blast
  qed
qed

lemma widget_stable:
  "c \<in> set (page_from (widget ui) repr segs es used) \<Longrightarrow>
   widget ui l (cell_text c) (cell_key c) h = cell_text c"
proof -
  assume "c \<in> set (page_from (widget ui) repr segs es used)"
  then obtain es' seg where c: "c = cell_of (widget ui) repr es' seg"
    using page_from_cell_of by blast
  show ?thesis
    unfolding c by (simp add: cell_of_sel edited_of_def widget_def split: option.splits)
qed

lemma loop_dict_idem:
  "loop_dict (widget ui) repr segs (loop_dict (widget ui) repr segs es) =
   loop_dict (widget ui) repr segs es"
proof -
  have "\<forall>c \<in> set (page_from (widget ui) repr segs es [''transcript_display'']).
          \<forall>l h. widget ui l (cell_text c) (cell_key c) h = cell_text c"
    by (simp add: widget_stable)
  from loop_repeat [OF this] show ?thesis
    by (simp add: loop_dict_def)
qed

text \<open>
  C8. Writing a text under a key twice leaves the dictionary as writing it once; a second
  write under the same key replaces the first; after a write the key holds the written
  text and every other key holds what it held. A second pass of the loop with the same
  widgets leaves the dictionary as the first pass left it.
\<close>

theorem set_segment_text_last_write_wins:
  "set_segment_text k t (set_segment_text k t es) = set_segment_text k t es
   \<and> set_segment_text k t' (set_segment_text k t es) = set_segment_text k t' es
   \<and> set_segment_text k t es k = Some t
   \<and> (\<forall>k'. k' \<noteq> k \<longrightarrow> set_segment_text k t es k' = es k')
   \<and> loop_dict (widget ui) repr segs (loop_dict (widget ui) repr segs es) =
       loop_dict (widget ui) repr segs es"
  by (simp add: set_segment_text_def loop_dict_idem)

theorem set_segment_text_last_write_wins_witness:
  "set_segment_text ''segment_0.0'' ''hi''
     (set_segment_text ''segment_0.0'' ''hey'' [''segment_1.0'' \<mapsto> ''world'']) ''segment_0.0'' = Some ''hi''
   \<and> set_segment_text ''segment_0.0'' ''hi''
     (set_segment_text ''segment_0.0'' ''hey'' [''segment_1.0'' \<mapsto> ''world'']) ''segment_1.0'' = Some ''world''"
proof -
  let ?es = "[''segment_1.0'' \<mapsto> ''world'']"
  have n: "''segment_1.0'' \<noteq> ''segment_0.0''"
    by simp
  note w = set_segment_text_last_write_wins [of "''segment_0.0''" "''hey''" ?es "''hi''"]
  note v = set_segment_text_last_write_wins [of "''segment_0.0''" "''hi''" ?es]
  note a = w [THEN conjunct2, THEN conjunct1]
  note b = v [THEN conjunct2, THEN conjunct2, THEN conjunct1]
  note c = v [THEN conjunct2, THEN conjunct2, THEN conjunct2, THEN conjunct1, THEN spec, THEN mp, OF n]
  show ?thesis
    unfolding a b c by simp
qed

section \<open>Segments with different keys\<close>

lemma key_not_transcript_display:
  "\<not> duplicate_key (segment_key repr seg) [''transcript_display'']"
  by (simp add: duplicate_key_def segment_key_def)

lemma edited_of_other:
  "segment_key repr seg \<noteq> k \<Longrightarrow>
   edited_of ta repr (set_segment_text k t es) seg = edited_of ta repr es seg"
  by (simp add: edited_of_def initial_text_def set_segment_text_def)

lemma cell_of_other:
  "segment_key repr seg \<noteq> k \<Longrightarrow>
   cell_of ta repr (set_segment_text k t es) seg = cell_of ta repr es seg"
  by (simp add: cell_of_def edited_of_other) (simp add: initial_text_def set_segment_text_def)

lemma row_of_other:
  "segment_key repr seg \<noteq> k \<Longrightarrow>
   row_of ta repr (set_segment_text k t es) seg = row_of ta repr es seg"
  by (simp add: row_of_def edited_of_other)

text \<open>
  When the keys of the segments differ and none is used, the loop creates the text area of
  every segment from the dictionary it started with, and ends with one row for each.
\<close>

lemma loop_distinct:
  assumes "distinct (map (segment_key repr) segs)"
    and "\<forall>s \<in> set segs. \<not> duplicate_key (segment_key repr s) used"
  shows "page_from ta repr segs es used = map (cell_of ta repr es) segs
    \<and> result_from ta repr segs es used = Inr (map (row_of ta repr es) segs)"
  using assms
proof (induction segs arbitrary: es used)
  case Nil
  show ?case by (simp add: loop_simps)
next
  case (Cons seg segs)
  let ?k = "segment_key repr seg"
  let ?es1 = "set_segment_text ?k (edited_of ta repr es seg) es"
  have nk: "segment_key repr s \<noteq> ?k" if "s \<in> set segs" for s
    using Cons.prems(1) that by (auto simp add: image_iff)
  have d: "distinct (map (segment_key repr) segs)"
    using Cons.prems(1) by simp
  have u: "\<forall>s \<in> set segs. \<not> duplicate_key (segment_key repr s) (?k # used)"
    using Cons.prems(2) nk by (simp add: duplicate_key_def)
  have f: "\<not> duplicate_key ?k used"
    using Cons.prems(2) by simp
  note IH = Cons.IH [OF d u, of ?es1]
  have c: "map (cell_of ta repr ?es1) segs = map (cell_of ta repr es) segs"
    using nk by (simp add: cell_of_other)
  have r: "map (row_of ta repr ?es1) segs = map (row_of ta repr es) segs"
    using nk by (simp add: row_of_other)
  show ?case
    using f IH by (simp add: loop_simps c r)
qed

lemma transcript_section_distinct:
  assumes "ss_transcript st = Some full"
    and "distinct (map (segment_key repr) (current_segments st))"
  shows "view_page (snd (transcript_section ta repr st))
           = map (cell_of ta repr (current_edits st)) (current_segments st)"
    and "view_table (snd (transcript_section ta repr st))
           = (if current_segments st = [] then None
              else Some (map (row_of ta repr (current_edits st)) (current_segments st)))"
    and "view_error (snd (transcript_section ta repr st)) = None"
proof -
  have "\<forall>s \<in> set (current_segments st).
          \<not> duplicate_key (segment_key repr s) [''transcript_display'']"
    by (simp add: key_not_transcript_display)
  note l = loop_distinct [OF assms(2) this, of ta "current_edits st"]
  show "view_page (snd (transcript_section ta repr st))
           = map (cell_of ta repr (current_edits st)) (current_segments st)"
    using l by (simp add: transcript_section_Some [OF assms(1)] loop_page_def)
  show "view_table (snd (transcript_section ta repr st))
           = (if current_segments st = [] then None
              else Some (map (row_of ta repr (current_edits st)) (current_segments st)))"
    using l by (simp add: transcript_section_Some [OF assms(1)] loop_result_def)
  show "view_error (snd (transcript_section ta repr st)) = None"
    using l by (simp add: transcript_section_Some [OF assms(1)] loop_result_def)
qed

section \<open>Two segments with one start\<close>

lemma collided_run:
  "loop_page ta repr [seg_first, seg_second] Map.empty = [cell_of ta repr Map.empty seg_first]"
  "loop_result ta repr [seg_first, seg_second] Map.empty
     = Inl (Duplicate_widget_key (segment_key repr seg_second))"
proof -
  have k: "segment_key repr seg_second = segment_key repr seg_first"
    by (simp add: segment_key_def seg_first_def seg_second_def)
  show "loop_page ta repr [seg_first, seg_second] Map.empty = [cell_of ta repr Map.empty seg_first]"
    by (simp add: loop_page_def loop_simps key_not_transcript_display k)
       (simp add: duplicate_key_def)
  show "loop_result ta repr [seg_first, seg_second] Map.empty
     = Inl (Duplicate_widget_key (segment_key repr seg_second))"
    by (simp add: loop_result_def loop_simps key_not_transcript_display k)
       (simp add: duplicate_key_def)
qed

lemma collided_fields:
  "ss_transcript collided = Some ''first second''"
  "current_segments collided = [seg_first, seg_second]"
  "current_edits collided = Map.empty"
  by (simp_all add: collided_def current_segments_def current_edits_def)

text \<open>
  C1 on the code. The two segments differ, and they have the same key whatever \<open>repr\<close>
  prints: the key is made of the start alone.
\<close>

theorem segment_key_collision:
  "seg_first \<noteq> seg_second
   \<and> (\<forall>repr. segment_key repr seg_first = segment_key repr seg_second)"
  by (simp add: segment_key_def seg_first_def seg_second_def)

text \<open>
  C3 on the code. On the two segments with one start, with no edit stored, the page has
  the text area of the first segment and nothing for the second: its text area raises,
  whatever the text areas return.
\<close>

theorem second_segment_not_shown:
  "\<forall>ta repr.
     view_page (snd (transcript_section ta repr collided)) = [cell_of ta repr Map.empty seg_first]
     \<and> view_error (snd (transcript_section ta repr collided))
         = Some (Duplicate_widget_key (segment_key repr seg_second))"
  by (simp add: transcript_section_Some [OF collided_fields(1)] collided_fields collided_run)

text \<open>
  C4 on the code. On the two segments with one start the transcript section offers no
  table: the loop ends with the exception before \<open>segments_data\<close> is used.
\<close>

theorem no_table_on_repeated_start:
  "\<forall>ta repr.
     view_table (snd (transcript_section ta repr collided)) = None
     \<and> current_segments collided = [seg_first, seg_second]"
  by (simp add: transcript_section_Some [OF collided_fields(1)] collided_fields collided_run)

text \<open>
  C7 on the code. On the two segments with one start the page has one text area for two
  segments.
\<close>

theorem one_cell_for_two_segments:
  "\<forall>ta repr.
     length (view_page (snd (transcript_section ta repr collided))) = 1
     \<and> length (current_segments collided) = 2"
  by (simp add: transcript_section_Some [OF collided_fields(1)] collided_fields collided_run)

section \<open>A second transcription\<close>

text \<open>
  C2 on the code. The first run transcribes a file to one segment \<open>hello\<close>; nothing is
  edited. The second run transcribes another file to one segment \<open>bye\<close> with the same
  start. The session state then holds the new transcript and the new segment, and the page
  and the table show \<open>hello\<close> for it.
\<close>

theorem edits_survive_new_transcript:
  "\<forall>repr.
     ss_transcript (run_state (script (env_ok bye) (widget Map.empty) repr (Some small_file) True
        (run_state (script (env_ok hello) (widget Map.empty) repr (Some small_file) True fresh))))
       = Some ''bye''
     \<and> ss_segments (run_state (script (env_ok bye) (widget Map.empty) repr (Some small_file) True
        (run_state (script (env_ok hello) (widget Map.empty) repr (Some small_file) True fresh))))
       = Some [seg_bye]
     \<and> view_full (run_view (script (env_ok bye) (widget Map.empty) repr (Some small_file) True
        (run_state (script (env_ok hello) (widget Map.empty) repr (Some small_file) True fresh))))
       = Some ''bye''
     \<and> map cell_text (view_page (run_view (script (env_ok bye) (widget Map.empty) repr
        (Some small_file) True
        (run_state (script (env_ok hello) (widget Map.empty) repr (Some small_file) True fresh)))))
       = [''hello'']
     \<and> map Content (case view_table (run_view (script (env_ok bye) (widget Map.empty) repr
        (Some small_file) True
        (run_state (script (env_ok hello) (widget Map.empty) repr (Some small_file) True fresh))))
          of None \<Rightarrow> [] | Some rows \<Rightarrow> rows)
       = [''hello'']"
proof
  fix repr
  let ?k = "segment_key repr seg_hello"
  let ?ta = "widget Map.empty"
  let ?s1 = "run_state (script (env_ok hello) ?ta repr (Some small_file) True fresh)"
  let ?r2 = "script (env_ok bye) ?ta repr (Some small_file) True ?s1"
  have k: "segment_key repr seg_bye = ?k"
    by (simp add: segment_key_def seg_hello_def seg_bye_def)
  have tx: "seg_text seg_hello = ''hello''" "seg_text seg_bye = ''bye''"
    by (simp_all add: seg_hello_def seg_bye_def)
  have u: "upload_section (env_ok tr) (Some small_file) True st =
      (st\<lparr>ss_segments := Some (tr_segments tr), ss_transcript := Some (tr_text tr)\<rparr>,
       [transcription_request ''/tmp/upload.mp3'' []], [Process_success])" for tr st
    by (simp add: upload_section_def process_audio_def Let_def env_ok_def small_file_def)
  have d1: "loop_dict ?ta repr [seg_hello] Map.empty = [?k \<mapsto> ''hello'']"
    by (simp add: loop_dict_def loop_simps key_not_transcript_display edited_of_def widget_def
        initial_text_def set_segment_text_def tx)
  have s1: "?s1 = \<lparr>ss_transcript = Some ''hello'', ss_segments = Some [seg_hello],
      ss_edited_transcript = Some ''hello'', ss_edited_segments = Some [?k \<mapsto> ''hello'']\<rparr>"
    by (simp add: run_state_def script_after_upload [OF u] transcript_section_Some hello_def
        fresh_def current_segments_def current_edits_def widget_def d1)
  let ?st = "\<lparr>ss_transcript = Some ''bye'', ss_segments = Some [seg_bye],
      ss_edited_transcript = Some ''hello'', ss_edited_segments = Some [?k \<mapsto> ''hello'']\<rparr>"
  have r2: "?r2 = (fst (transcript_section ?ta repr ?st),
      [transcription_request ''/tmp/upload.mp3'' []], [Process_success],
      snd (transcript_section ?ta repr ?st))"
    unfolding s1 by (simp add: script_after_upload [OF u] bye_def)
  have t: "ss_transcript ?st = Some ''bye''"
    by simp
  have f: "current_segments ?st = [seg_bye]" "current_edits ?st = [?k \<mapsto> ''hello'']"
    by (simp_all add: current_segments_def current_edits_def)
  have e: "edited_of ?ta repr [?k \<mapsto> ''hello''] seg_bye = ''hello''"
    by (simp add: edited_of_def widget_def initial_text_def k)
  have p: "loop_page ?ta repr [seg_bye] [?k \<mapsto> ''hello''] = [cell_of ?ta repr [?k \<mapsto> ''hello''] seg_bye]"
    by (simp add: loop_page_def loop_simps key_not_transcript_display)
  have r: "loop_result ?ta repr [seg_bye] [?k \<mapsto> ''hello'']
      = Inr [row_of ?ta repr [?k \<mapsto> ''hello''] seg_bye]"
    by (simp add: loop_result_def loop_simps key_not_transcript_display)
  show "ss_transcript (run_state ?r2) = Some ''bye''
     \<and> ss_segments (run_state ?r2) = Some [seg_bye]
     \<and> view_full (run_view ?r2) = Some ''bye''
     \<and> map cell_text (view_page (run_view ?r2)) = [''hello'']
     \<and> map Content (case view_table (run_view ?r2) of None \<Rightarrow> [] | Some rows \<Rightarrow> rows) = [''hello'']"
    unfolding r2
    by (simp add: run_state_def run_view_def transcript_section_Some [OF t] f p r cell_of_sel
        row_of_def e widget_def)
qed

section \<open>The texts kept for the next run\<close>

lemma kept_of_Some:
  "kept_of page i = Some t \<Longrightarrow> \<exists>c \<in> set page. cell_id c = i \<and> cell_text c = t"
proof -
  assume "kept_of page i = Some t"
  then have "(i, t) \<in> set (map (\<lambda>c. (cell_id c, cell_text c)) page)"
    unfolding kept_of_def by (rule map_of_SomeD)
  then show ?thesis
    by auto
qed

text \<open>
  With the texts kept after a run, a text area that is given the text it held in that run
  as \<open>value\<close> returns this text.
\<close>

lemma kept_stable:
  assumes c: "c \<in> set (page_from ta repr segs es [''transcript_display''])"
  shows "kept_area ((kept_of (page_from ta repr segs es [''transcript_display'']))
                      (full_id full \<mapsto> e))
           l (cell_text c) (cell_key c) h = cell_text c"
proof -
  let ?page = "page_from ta repr segs es [''transcript_display'']"
  let ?i = "(l, cell_text c, cell_key c, h)"
  have "cell_key c \<noteq> ''transcript_display''"
    using page_from_fresh [OF c] by simp
  then have ne: "?i \<noteq> full_id full"
    by (simp add: full_id_def)
  have "t = cell_text c" if "kept_of ?page ?i = Some t" for t
  proof -
    from kept_of_Some [OF that] obtain c' where c': "c' \<in> set ?page"
      and i: "cell_id c' = ?i" and t: "cell_text c' = t"
      by blast
    from i have "cell_key c' = cell_key c"
      by (simp add: cell_id_def)
    moreover have "inj_on cell_key (set ?page)"
      using page_from_distinct [of ta repr segs es "[''transcript_display'']"]
      by (simp add: distinct_map)
    ultimately have "c' = c"
      using c c' by (simp add: inj_on_def)
    with t show ?thesis by simp
  qed
  then show ?thesis
    using ne by (cases "kept_of ?page ?i") (auto simp add: kept_area_def)
qed

text \<open>
  The run after a run, with the texts the framework has kept and nothing typed: it shows
  the same texts and leaves the dictionary as it is.
\<close>

lemma next_run:
  assumes t: "ss_transcript st = Some full"
  shows "view_full (snd (transcript_section (kept_area (view_kept (snd (transcript_section ta repr st))))
                      repr (fst (transcript_section ta repr st))))
           = view_full (snd (transcript_section ta repr st))"
    and "map cell_key (view_page (snd (transcript_section
              (kept_area (view_kept (snd (transcript_section ta repr st))))
              repr (fst (transcript_section ta repr st)))))
           = map cell_key (view_page (snd (transcript_section ta repr st)))"
    and "map cell_text (view_page (snd (transcript_section
              (kept_area (view_kept (snd (transcript_section ta repr st))))
              repr (fst (transcript_section ta repr st)))))
           = map cell_text (view_page (snd (transcript_section ta repr st)))"
    and "current_edits (fst (transcript_section
              (kept_area (view_kept (snd (transcript_section ta repr st))))
              repr (fst (transcript_section ta repr st))))
           = current_edits (fst (transcript_section ta repr st))"
proof -
  let ?segs = "current_segments st"
  let ?es = "current_edits st"
  let ?e = "ta ''Transcript:'' full ''transcript_display'' 300"
  let ?page = "page_from ta repr ?segs ?es [''transcript_display'']"
  let ?st1 = "fst (transcript_section ta repr st)"
  let ?E = "dict_from ta repr ?segs ?es [''transcript_display'']"
  define K where "K = (kept_of ?page)(full_id full \<mapsto> ?e)"
  have K: "view_kept (snd (transcript_section ta repr st)) = K"
    by (simp add: transcript_section_Some [OF t] loop_page_def K_def)
  have P: "view_page (snd (transcript_section ta repr st)) = ?page"
    by (simp add: transcript_section_Some [OF t] loop_page_def)
  have F: "view_full (snd (transcript_section ta repr st)) = Some ?e"
    by (simp add: transcript_section_Some [OF t])
  note s1 = transcript_section_state [OF t, of ta repr]
  note t1 = s1(1)
  have e1: "current_edits ?st1 = ?E"
    by (simp add: s1 loop_dict_def)
  have "\<forall>c \<in> set ?page. \<forall>l h. kept_area K l (cell_text c) (cell_key c) h = cell_text c"
    unfolding K_def using kept_stable by blast
  note rep = loop_repeat [OF this]
  note rep_d = rep [THEN conjunct1]
  note rep_t = rep [THEN conjunct2, THEN conjunct1]
  note rep_k = rep [THEN conjunct2, THEN conjunct2]
  have full2: "kept_area K ''Transcript:'' full ''transcript_display'' 300 = ?e"
    by (simp add: kept_area_def full_id_def K_def)
  have F2: "view_full (snd (transcript_section (kept_area K) repr ?st1)) = Some ?e"
    by (simp add: transcript_section_Some [OF t1] full2)
  have P2: "view_page (snd (transcript_section (kept_area K) repr ?st1))
      = page_from (kept_area K) repr ?segs ?E [''transcript_display'']"
    by (simp add: transcript_section_Some [OF t1] s1(3) e1 loop_page_def)
  have D2: "current_edits (fst (transcript_section (kept_area K) repr ?st1))
      = dict_from (kept_area K) repr ?segs ?E [''transcript_display'']"
    by (simp add: transcript_section_state [OF t1] s1(3) e1 loop_dict_def)
  show "view_full (snd (transcript_section (kept_area (view_kept (snd (transcript_section ta repr st))))
                      repr (fst (transcript_section ta repr st))))
           = view_full (snd (transcript_section ta repr st))"
    unfolding K F F2 ..
  show "map cell_key (view_page (snd (transcript_section
              (kept_area (view_kept (snd (transcript_section ta repr st))))
              repr (fst (transcript_section ta repr st)))))
           = map cell_key (view_page (snd (transcript_section ta repr st)))"
    unfolding K P P2 by (rule rep_k)
  show "map cell_text (view_page (snd (transcript_section
              (kept_area (view_kept (snd (transcript_section ta repr st))))
              repr (fst (transcript_section ta repr st)))))
           = map cell_text (view_page (snd (transcript_section ta repr st)))"
    unfolding K P P2 by (rule rep_t)
  show "current_edits (fst (transcript_section
              (kept_area (view_kept (snd (transcript_section ta repr st))))
              repr (fst (transcript_section ta repr st))))
           = current_edits (fst (transcript_section ta repr st))"
    unfolding K D2 e1 by (rule rep_d)
qed

lemma dictionary_holds_page:
  assumes t: "ss_transcript st = Some full"
    and c: "c \<in> set (view_page (snd (transcript_section ta repr st)))"
  shows "current_edits (fst (transcript_section ta repr st)) (cell_key c) = Some (cell_text c)"
proof -
  from c have "c \<in> set (page_from ta repr (current_segments st) (current_edits st)
                          [''transcript_display''])"
    by (simp add: transcript_section_Some [OF t] loop_page_def)
  then show ?thesis
    by (simp add: transcript_section_state [OF t] loop_dict_def dict_from_cell)
qed

section \<open>Values of the formats\<close>

text \<open>
  The format \<open>.2f\<close> on 0.125 and 0.375 (a tie goes to the even digit), on 2.5,
  on 1234.578125 and on the negative zero.
\<close>

lemma fmt2_values:
  "fmt2 (Finite False 1 (- 3)) = ''0.12''" "fmt2 (Finite False 3 (- 3)) = ''0.38''"
  "fmt2 (Finite False 5 (- 1)) = ''2.50''" "fmt2 (Finite False 79013 (- 6)) = ''1234.58''"
  "fmt2 (Finite True 0 0) = ''-0.00''"
  by (simp_all add: fmt2_def round_half_even_def digits.simps digit_char_def)

lemma fmt2_hello_world:
  "fmt2 (seg_start seg_hello) = ''0.00''" "fmt2 (seg_end seg_hello) = ''1.00''"
  "fmt2 (seg_start seg_world) = ''1.00''" "fmt2 (seg_end seg_world) = ''2.00''"
  by code_simp+

lemma keys_hello_world:
  "segment_key repr_whole seg_hello = ''segment_0.0''"
  "segment_key repr_whole seg_world = ''segment_1.0''"
  by code_simp+

lemma time_range_hello_world:
  "time_range seg_hello = ''0.00 - 1.00''" "time_range seg_world = ''1.00 - 2.00''"
  by (simp_all add: time_range_def fmt2_hello_world)

lemma time_label_hello_world:
  "time_label seg_hello = ''0.00s - 1.00s''" "time_label seg_world = ''1.00s - 2.00s''"
  by (simp_all add: time_label_def fmt2_hello_world)

lemma text_hello_world:
  "seg_text seg_hello = ''hello''" "seg_text seg_world = ''world''"
  by (simp_all add: seg_hello_def seg_world_def)

lemma ingested_fields:
  "ss_transcript ingested = Some ''hello world''"
  "current_segments ingested = [seg_hello, seg_world]"
  "current_edits ingested = Map.empty"
  by (simp_all add: ingested_def current_segments_def current_edits_def)

lemma emptied_lookup:
  "emptied (full_id ''hello world'') = Some []"
  "kept_area emptied ''Transcript:'' ''hello world'' ''transcript_display'' 300 = []"
  "edited_of (kept_area emptied) repr_whole Map.empty seg_hello = []"
  "edited_of (kept_area emptied) repr_whole Map.empty seg_world = ''world''"
proof -
  have ne: "segment_key repr_whole seg_hello \<noteq> ''transcript_display''"
    by (simp add: keys_hello_world)
  show "emptied (full_id ''hello world'') = Some []"
    using ne by (simp add: emptied_def full_id_def)
  then show "kept_area emptied ''Transcript:'' ''hello world'' ''transcript_display'' 300 = []"
    by (simp add: kept_area_def full_id_def)
  show "edited_of (kept_area emptied) repr_whole Map.empty seg_hello = []"
    by (simp add: edited_of_def kept_area_def initial_text_def emptied_def)
  show "edited_of (kept_area emptied) repr_whole Map.empty seg_world = ''world''"
    by (simp add: edited_of_def kept_area_def initial_text_def emptied_def full_id_def
        keys_hello_world text_hello_world)
qed

lemma emptied_page:
  "map cell_text (view_page (snd (transcript_section (kept_area emptied) repr_whole ingested)))
     = ['''', ''world'']"
proof -
  have d: "distinct (map (segment_key repr_whole) (current_segments ingested))"
    by (simp add: ingested_fields keys_hello_world)
  show ?thesis
    by (simp add: transcript_section_distinct(1) [OF ingested_fields(1) d] ingested_fields
        cell_of_sel emptied_lookup)
qed

section \<open>An edit to the empty text\<close>

text \<open>
  C9. After the empty text is written under a key, the text handed to the segment's text
  area is the empty text, whatever the segment's own text is; the segment's own text is
  handed over exactly when the dictionary has nothing under the key. The text area of the
  whole transcript shows the transcript when no text is kept for it; when the text kept
  for it is the empty text (the user has emptied it), the page, the text file and the
  session state hold the empty text. The run after any run, with the texts the framework
  has kept and nothing typed, shows the same full text and the same text in every text
  area: what was emptied stays empty. After a run the dictionary holds, under the key of
  every text area on the page, the text the area holds, the empty text as any other.
\<close>

theorem empty_edit_is_kept:
  "initial_text (set_segment_text k [] es) k seg = []
   \<and> (es k = None \<longrightarrow> initial_text es k seg = seg_text seg)
   \<and> (\<forall>t. es k = Some t \<longrightarrow> initial_text es k seg = t)
   \<and> (ss_transcript st = Some full \<longrightarrow>
        (kp (full_id full) = None \<longrightarrow>
           view_full (snd (transcript_section (kept_area kp) repr st)) = Some full)
        \<and> (kp (full_id full) = Some [] \<longrightarrow>
             view_full (snd (transcript_section (kept_area kp) repr st)) = Some []
             \<and> view_txt (snd (transcript_section (kept_area kp) repr st)) = Some []
             \<and> ss_edited_transcript (fst (transcript_section (kept_area kp) repr st)) = Some [])
        \<and> view_full (snd (transcript_section
                (kept_area (view_kept (snd (transcript_section ta repr st))))
                repr (fst (transcript_section ta repr st))))
            = view_full (snd (transcript_section ta repr st))
        \<and> map cell_key (view_page (snd (transcript_section
                (kept_area (view_kept (snd (transcript_section ta repr st))))
                repr (fst (transcript_section ta repr st)))))
            = map cell_key (view_page (snd (transcript_section ta repr st)))
        \<and> map cell_text (view_page (snd (transcript_section
                (kept_area (view_kept (snd (transcript_section ta repr st))))
                repr (fst (transcript_section ta repr st)))))
            = map cell_text (view_page (snd (transcript_section ta repr st)))
        \<and> (\<forall>c \<in> set (view_page (snd (transcript_section ta repr st))).
              current_edits (fst (transcript_section ta repr st)) (cell_key c)
                = Some (cell_text c)))"
proof (intro conjI impI allI ballI)
  show "initial_text (set_segment_text k [] es) k seg = []"
    by (simp add: initial_text_def set_segment_text_def)
  show "initial_text es k seg = seg_text seg" if "es k = None"
    using that by (simp add: initial_text_def)
  show "initial_text es k seg = t" if "es k = Some t" for t
    using that by (simp add: initial_text_def)
next
  assume t: "ss_transcript st = Some full" and n: "kp (full_id full) = None"
  show "view_full (snd (transcript_section (kept_area kp) repr st)) = Some full"
    using n by (simp add: transcript_section_Some [OF t] kept_area_def full_id_def)
next
  assume t: "ss_transcript st = Some full" and e: "kp (full_id full) = Some []"
  show "view_full (snd (transcript_section (kept_area kp) repr st)) = Some []"
    and "view_txt (snd (transcript_section (kept_area kp) repr st)) = Some []"
    and "ss_edited_transcript (fst (transcript_section (kept_area kp) repr st)) = Some []"
    using e by (simp_all add: transcript_section_Some [OF t] kept_area_def full_id_def)
next
  assume t: "ss_transcript st = Some full"
  show "view_full (snd (transcript_section
                (kept_area (view_kept (snd (transcript_section ta repr st))))
                repr (fst (transcript_section ta repr st))))
            = view_full (snd (transcript_section ta repr st))"
    by (rule next_run(1) [OF t])
  show "map cell_key (view_page (snd (transcript_section
                (kept_area (view_kept (snd (transcript_section ta repr st))))
                repr (fst (transcript_section ta repr st)))))
            = map cell_key (view_page (snd (transcript_section ta repr st)))"
    by (rule next_run(2) [OF t])
  show "map cell_text (view_page (snd (transcript_section
                (kept_area (view_kept (snd (transcript_section ta repr st))))
                repr (fst (transcript_section ta repr st)))))
            = map cell_text (view_page (snd (transcript_section ta repr st)))"
    by (rule next_run(3) [OF t])
next
  fix c
  assume t: "ss_transcript st = Some full"
    and c: "c \<in> set (view_page (snd (transcript_section ta repr st)))"
  show "current_edits (fst (transcript_section ta repr st)) (cell_key c) = Some (cell_text c)"
    by (rule dictionary_holds_page [OF t c])
qed

theorem empty_edit_is_kept_witness:
  "seg_text seg_hello = ''hello''
   \<and> initial_text (set_segment_text ''segment_0.0'' [] Map.empty) ''segment_0.0'' seg_hello = []
   \<and> view_full (snd (transcript_section (kept_area emptied) repr_whole ingested)) = Some []
   \<and> map cell_text (view_page (snd (transcript_section (kept_area emptied) repr_whole ingested)))
       = ['''', ''world'']
   \<and> view_full (snd (transcript_section
         (kept_area (view_kept (snd (transcript_section (kept_area emptied) repr_whole ingested))))
         repr_whole (fst (transcript_section (kept_area emptied) repr_whole ingested)))) = Some []
   \<and> map cell_text (view_page (snd (transcript_section
         (kept_area (view_kept (snd (transcript_section (kept_area emptied) repr_whole ingested))))
         repr_whole (fst (transcript_section (kept_area emptied) repr_whole ingested)))))
       = ['''', ''world'']"
proof -
  note th = empty_edit_is_kept
    [of "''segment_0.0''" Map.empty seg_hello ingested "''hello world''" emptied repr_whole
        "kept_area emptied"]
  note w1 = th [THEN conjunct1]
  note c4 = th [THEN conjunct2, THEN conjunct2, THEN conjunct2, THEN mp, OF ingested_fields(1)]
  note w2 = c4 [THEN conjunct2, THEN conjunct1, THEN mp, OF emptied_lookup(1), THEN conjunct1]
  note w3 = c4 [THEN conjunct2, THEN conjunct2, THEN conjunct1]
  note w4 = c4 [THEN conjunct2, THEN conjunct2, THEN conjunct2, THEN conjunct2, THEN conjunct1]
  show ?thesis
    unfolding w3 w4 using w1 w2 by (simp add: emptied_page text_hello_world)
qed

end
